theory Spec2Isabelle
  imports Complex_Main "HOL-Library.Word"
begin

section \<open>The HTJ2K encoder front end (HTJ2KEncoder.hpp)\<close>

text \<open>
  The header drives an external codec engine: it translates a handful of options into the
  engine's parameter strings, binds an in-memory byte sink to a codestream, pushes the
  image as one stripe and lets the engine write the coded bytes into the sink. The engine
  is not part of the header. It is modelled by the sequence of calls the header makes on
  it and by a parameter that says which sink writes the engine answers with.

  The native build is modelled (the branch of the header without \<open>__EMSCRIPTEN__\<close>).
\<close>

subsection \<open>Data\<close>

type_synonym byte = "8 word"

text \<open>
  \<open>size_t\<close> fields are only stored, switched on and printed, never used in arithmetic
  that reaches the engine, so they are natural numbers. The \<open>int\<close> field \<open>qfactor\<close>
  is a 32-bit word, read as two's complement (\<open>sint\<close>, \<open><s\<close>).
\<close>

type_synonym size_t = nat
type_synonym c_int = "32 word"

text \<open>
  Modelled from the spec: \<open>FrameInfo.hpp\<close> is not among the sources. The header reads
  the five fields below; the spec lists the same five.
\<close>

record FrameInfo =
  width :: nat
  height :: nat
  bitsPerSample :: nat
  componentCount :: nat
  isSigned :: bool

text \<open>
  Modelled from the spec: \<open>Size.hpp\<close> is not among the sources. The header builds a
  \<open>Size\<close> from two numbers and prints its two fields with \<open>%d\<close>.
\<close>

record Size =
  size_width :: int
  size_height :: int

definition Size_new :: "int \<Rightarrow> int \<Rightarrow> Size" where
  "Size_new w h = \<lparr>size_width = w, size_height = h\<rparr>"

text \<open>A C \<open>float\<close>: a finite value, an infinity or a NaN. It is only ever stored.\<close>

datatype c_float = Finite real | PosInf | NegInf | NaN

text \<open>
  A \<open>uint8_t *\<close> as a caller can hand it to \<open>setSourceImage\<close>: null, an address in
  the caller's own memory, or \<open>decoded_.data() + off\<close>, a pointer into the storage of
  the encoder's vector \<open>decoded_\<close>, which the caller has from the reference that
  \<open>getDecodedBytes\<close> returns.
\<close>

datatype pointer = nullptr | Ptr nat | Decoded_data nat

text \<open>The caller's memory, by address.\<close>

type_synonym memory = "nat \<Rightarrow> byte"

text \<open>
  The private members. An Isabelle name cannot end in an underscore, so the member
  \<open>x_\<close> of the source is the field \<open>m_x\<close>; \<open>qfactor\<close> keeps its name.
\<close>

record HTJ2KEncoder =
  m_decoded :: "byte list"
  m_encoded :: "byte list"
  m_frameInfo :: FrameInfo
  m_decompositions :: size_t
  m_lossless :: bool
  m_quantizationStep :: c_float
  m_progressionOrder :: size_t
  m_blockDimensions :: Size
  m_htEnabled :: bool
  qfactor :: c_int
  m_buf :: pointer
  m_size :: size_t

subsection \<open>Constructor and setters\<close>

text \<open>
  The constructor's initialiser list names nine members. The two vectors are default
  constructed (empty); \<open>frameInfo_\<close> is default initialised, so its value is whatever
  \<open>FrameInfo\<close>'s default is: the parameter \<open>fi\<close>.
\<close>

definition HTJ2KEncoder_new :: "FrameInfo \<Rightarrow> HTJ2KEncoder" where
  "HTJ2KEncoder_new fi =
     \<lparr>m_decoded = [],
      m_encoded = [],
      m_frameInfo = fi,
      m_decompositions = 5,
      m_lossless = True,
      m_quantizationStep = Finite (- 1),
      m_progressionOrder = 2,
      m_blockDimensions = Size_new 64 64,
      m_htEnabled = True,
      qfactor = 85,
      m_buf = nullptr,
      m_size = 0\<rparr>"

text \<open>
  \<open>getDecodedBytes\<close> stores the frame description and returns a reference to
  \<open>decoded_\<close>; the state after the call is the first component, the vector the
  reference denotes the second.
\<close>

definition getDecodedBytes :: "FrameInfo \<Rightarrow> HTJ2KEncoder \<Rightarrow> HTJ2KEncoder \<times> byte list" where
  "getDecodedBytes frameInfo s =
     (let s' = s\<lparr>m_frameInfo := frameInfo\<rparr> in (s', m_decoded s'))"

definition setSourceImage :: "pointer \<Rightarrow> size_t \<Rightarrow> HTJ2KEncoder \<Rightarrow> HTJ2KEncoder" where
  "setSourceImage buf sz s = s\<lparr>m_buf := buf, m_size := sz\<rparr>"

definition getEncodedBytes :: "HTJ2KEncoder \<Rightarrow> byte list" where
  "getEncodedBytes s = m_encoded s"

definition setDecompositions :: "size_t \<Rightarrow> HTJ2KEncoder \<Rightarrow> HTJ2KEncoder" where
  "setDecompositions decompositions s = s\<lparr>m_decompositions := decompositions\<rparr>"

definition setQuality :: "bool \<Rightarrow> c_float \<Rightarrow> HTJ2KEncoder \<Rightarrow> HTJ2KEncoder" where
  "setQuality lossless quantizationStep s =
     s\<lparr>m_lossless := lossless, m_quantizationStep := quantizationStep\<rparr>"

definition setQfactor :: "c_int \<Rightarrow> HTJ2KEncoder \<Rightarrow> HTJ2KEncoder" where
  "setQfactor qf s =
     (let qf1 = (if qf <s 0 then 0 else qf);
          qf2 = (if 100 <s qf1 then 100 else qf1)
      in s\<lparr>qfactor := qf2\<rparr>)"

definition setProgressionOrder :: "size_t \<Rightarrow> HTJ2KEncoder \<Rightarrow> HTJ2KEncoder" where
  "setProgressionOrder progressionOrder s = s\<lparr>m_progressionOrder := progressionOrder\<rparr>"

definition setBlockDimensions :: "Size \<Rightarrow> HTJ2KEncoder \<Rightarrow> HTJ2KEncoder" where
  "setBlockDimensions blockDimensions s = s\<lparr>m_blockDimensions := blockDimensions\<rparr>"

definition setHTEnabled :: "bool \<Rightarrow> HTJ2KEncoder \<Rightarrow> HTJ2KEncoder" where
  "setHTEnabled htEnabled s = s\<lparr>m_htEnabled := htEnabled\<rparr>"

subsection \<open>Formatting: \<open>snprintf\<close> into \<open>char param[32]\<close>\<close>

definition digit_char :: "nat \<Rightarrow> char" where
  "digit_char d = ''0123456789'' ! (d mod 10)"

fun decimal :: "nat \<Rightarrow> string" where
  "decimal n = (if n < 10 then [digit_char n] else decimal (n div 10) @ [digit_char (n mod 10)])"

declare decimal.simps [simp del]

text \<open>\<open>%zu\<close> prints an unsigned value, \<open>%d\<close> a signed one.\<close>

definition fmt_zu :: "nat \<Rightarrow> string" where
  "fmt_zu n = decimal n"

definition fmt_d :: "int \<Rightarrow> string" where
  "fmt_d i = (if i < 0 then CHR ''-'' # decimal (nat (- i)) else decimal (nat i))"

text \<open>
  \<open>snprintf(param, n, ...)\<close> stores at most \<open>n - 1\<close> characters of the formatted
  text and a terminating zero.
\<close>

definition snprintf :: "nat \<Rightarrow> string \<Rightarrow> string" where
  "snprintf n formatted = take (n - 1) formatted"

subsection \<open>The byte sink \<open>kdu_buffer_target\<close>\<close>

text \<open>
  The target holds a reference to the encoder's \<open>encoded_\<close>; each operation takes the
  vector and returns it updated. The constructor resizes it to zero.
\<close>

definition kdu_buffer_target_new :: "byte list \<Rightarrow> byte list" where
  "kdu_buffer_target_new encoded = take 0 encoded"

text \<open>
  \<open>write(buf, num_bytes)\<close> grows the vector by \<open>num_bytes\<close> and copies that many bytes
  from \<open>buf\<close>; \<open>buf\<close> is modelled by the bytes readable at the pointer. A negative
  count, or a count beyond the readable bytes, is undefined behaviour in the source
  (\<open>None\<close>). Otherwise the call returns \<open>true\<close>. (The name \<open>write\<close> is taken in
  Isabelle.)
\<close>

definition target_write :: "byte list \<Rightarrow> int \<Rightarrow> byte list \<Rightarrow> (bool \<times> byte list) option" where
  "target_write buf num_bytes encoded =
     (if num_bytes < 0 \<or> int (length buf) < num_bytes then None
      else Some (True, encoded @ take (nat num_bytes) buf))"

text \<open>A sequence of \<open>write\<close> calls, in call order; the results of the calls are collected.\<close>

fun target_write_all :: "(byte list \<times> int) list \<Rightarrow> byte list \<Rightarrow> (bool list \<times> byte list) option" where
  "target_write_all [] encoded = Some ([], encoded)"
| "target_write_all ((buf, num_bytes) # ws) encoded =
     (case target_write buf num_bytes encoded of
        None \<Rightarrow> None
      | Some (r, encoded') \<Rightarrow>
          (case target_write_all ws encoded' of
             None \<Rightarrow> None
           | Some (rs, encoded'') \<Rightarrow> Some (r # rs, encoded'')))"

text \<open>\<open>close()\<close> is inherited and leaves the vector as it is.\<close>

definition target_close :: "byte list \<Rightarrow> byte list" where
  "target_close encoded = encoded"

subsection \<open>The calls \<open>encode()\<close> makes on the engine\<close>

datatype siz_attr = Scomponents | Sdims | Sprecision | Ssigned

datatype siz_value = Int_value int | Bool_value bool

text \<open>
  One constructor for each engine entry point the body of \<open>encode()\<close> calls.
  \<open>Compressor_start\<close> stands for
  \<open>start(codestream, 0, nullptr, nullptr, 0U, false, false, true, 0.0, 0, true, &env)\<close>,
  whose arguments are all constants; \<open>Push_stripe\<close> carries the source pointer and the
  array \<open>stripe_heights\<close>.
\<close>

datatype engine_call =
    Siz_set siz_attr nat nat siz_value
  | Siz_finalize
  | Codestream_create
  | Parse_string string
  | Finalize_all
  | Env_create
  | Env_add_thread
  | Compressor_start
  | Push_stripe pointer "int list"
  | Compressor_finish
  | Codestream_destroy
  | Target_close

text \<open>\<open>siz.set(...)\<close> for the geometry, then \<open>finalize()\<close>.\<close>

definition siz_calls :: "FrameInfo \<Rightarrow> engine_call list" where
  "siz_calls fi =
     [Siz_set Scomponents 0 0 (Int_value (int (componentCount fi))),
      Siz_set Sdims 0 0 (Int_value (int (height fi))),
      Siz_set Sdims 0 1 (Int_value (int (width fi))),
      Siz_set Sprecision 0 0 (Int_value (int (bitsPerSample fi))),
      Siz_set Ssigned 0 0 (Bool_value (isSigned fi)),
      Siz_finalize]"

text \<open>The \<open>switch (progressionOrder_)\<close>: five cases, no default.\<close>

definition corder_param :: "size_t \<Rightarrow> string list" where
  "corder_param progressionOrder =
     (if progressionOrder = 0 then [''Corder=LRCP'']
      else if progressionOrder = 1 then [''Corder=RLCP'']
      else if progressionOrder = 2 then [''Corder=RPCL'']
      else if progressionOrder = 3 then [''Corder=PCRL'']
      else if progressionOrder = 4 then [''Corder=CPRL'']
      else [])"

text \<open>The strings handed to \<open>parse_string\<close>, in the order of the source.\<close>

definition coding_params :: "HTJ2KEncoder \<Rightarrow> string list" where
  "coding_params s =
     (if m_htEnabled s then [''Cmodes=HT''] else [])
     @ (if m_lossless s then [''Creversible=yes'']
        else [''Creversible=no'',
              snprintf 32 (''Qfactor='' @ fmt_d (sint (qfactor s)))])
     @ corder_param (m_progressionOrder s)
     @ [snprintf 32 (''Clevels='' @ fmt_zu (m_decompositions s))]
     @ [snprintf 32 (''Cblk={'' @ fmt_d (size_width (m_blockDimensions s)) @ '',''
                      @ fmt_d (size_height (m_blockDimensions s)) @ ''}'')]"

text \<open>\<open>int stripe_heights[3] = {height, height, height}\<close>.\<close>

definition stripe_heights :: "FrameInfo \<Rightarrow> int list" where
  "stripe_heights fi = [int (height fi), int (height fi), int (height fi)]"

definition engine_calls :: "HTJ2KEncoder \<Rightarrow> engine_call list" where
  "engine_calls s =
     siz_calls (m_frameInfo s)
     @ [Codestream_create]
     @ map Parse_string (coding_params s)
     @ [Finalize_all]
     @ [Env_create, Env_add_thread, Env_add_thread]
     @ [Compressor_start]
     @ [Push_stripe (m_buf s) (stripe_heights (m_frameInfo s))]
     @ [Compressor_finish]
     @ [Codestream_destroy]
     @ [Target_close]"

subsection \<open>\<open>encode()\<close>\<close>

text \<open>
  The byte at \<open>p[i]\<close>, for a pointer \<open>p\<close>: nothing can be read through a null pointer;
  a pointer into the caller's memory reads that memory; a pointer into the storage of
  \<open>decoded_\<close> reads the contents the vector has at that moment, and nothing beyond its
  end.
\<close>

fun readable :: "memory \<Rightarrow> byte list \<Rightarrow> pointer \<Rightarrow> nat \<Rightarrow> byte option" where
  "readable mem decoded nullptr i = None"
| "readable mem decoded (Ptr a) i = Some (mem (a + i))"
| "readable mem decoded (Decoded_data off) i =
     (if off + i < length decoded then Some (decoded ! (off + i)) else None)"

text \<open>
  The one data pointer \<open>encode()\<close> hands to the engine is \<open>buf_\<close>: what the engine can
  read of the source is what is readable there.
\<close>

definition source_view :: "memory \<Rightarrow> HTJ2KEncoder \<Rightarrow> nat \<Rightarrow> byte option" where
  "source_view mem s = readable mem (m_decoded s) (m_buf s)"

text \<open>
  The engine is a parameter: given the calls made on it and the bytes readable at the
  source pointer, it either fails (\<open>None\<close>: the engine's error handler ends the encode,
  which then does not return) or answers with the \<open>write\<close> calls it makes on the sink,
  in order. \<open>write\<close> always returns \<open>true\<close>, so the engine learns nothing from the
  sink.
\<close>

type_synonym engine =
  "engine_call list \<Rightarrow> (nat \<Rightarrow> byte option) \<Rightarrow> (byte list \<times> int) list option"

definition bytesPerPixel :: "FrameInfo \<Rightarrow> nat" where
  "bytesPerPixel fi = (bitsPerSample fi + 8 - 1) div 8"

text \<open>
  \<open>std::vector::reserve\<close> changes the capacity of a vector, not its contents. (Memory
  is not bounded in this model: no allocation fails.)
\<close>

definition reserve :: "nat \<Rightarrow> byte list \<Rightarrow> byte list" where
  "reserve n v = v"

text \<open>
  The body of \<open>encode()\<close>: the capacity is reserved, the target's constructor empties
  the vector, the engine's writes fill it, \<open>close()\<close> leaves it.
\<close>

definition encode :: "engine \<Rightarrow> memory \<Rightarrow> HTJ2KEncoder \<Rightarrow> HTJ2KEncoder option" where
  "encode eng mem s =
     (let fi = m_frameInfo s;
          reserved = reserve (width fi * height fi * componentCount fi * bytesPerPixel fi)
                       (m_encoded s)
      in case eng (engine_calls s) (source_view mem s) of
           None \<Rightarrow> None
         | Some ws \<Rightarrow>
             (case target_write_all ws (kdu_buffer_target_new reserved) of
                None \<Rightarrow> None
              | Some (rs, encoded) \<Rightarrow> Some (s\<lparr>m_encoded := target_close encoded\<rparr>)))"

subsection \<open>Reachable states\<close>

text \<open>
  What a caller can do with an encoder: the public member functions, and storing bytes
  through the reference \<open>getDecodedBytes\<close> returned. The caller's memory can change
  between two calls, so each \<open>encode()\<close> comes with the memory of its moment.
\<close>

datatype op =
    GetDecodedBytes FrameInfo
  | StoreDecoded "byte list"
  | SetSourceImage pointer size_t
  | SetDecompositions size_t
  | SetQuality bool c_float
  | SetQfactor c_int
  | SetProgressionOrder size_t
  | SetBlockDimensions Size
  | SetHTEnabled bool
  | Encode memory

fun apply_op :: "engine \<Rightarrow> op \<Rightarrow> HTJ2KEncoder \<Rightarrow> HTJ2KEncoder option" where
  "apply_op eng (GetDecodedBytes fi) s = Some (fst (getDecodedBytes fi s))"
| "apply_op eng (StoreDecoded bs) s = Some (s\<lparr>m_decoded := bs\<rparr>)"
| "apply_op eng (SetSourceImage p n) s = Some (setSourceImage p n s)"
| "apply_op eng (SetDecompositions n) s = Some (setDecompositions n s)"
| "apply_op eng (SetQuality l q) s = Some (setQuality l q s)"
| "apply_op eng (SetQfactor q) s = Some (setQfactor q s)"
| "apply_op eng (SetProgressionOrder p) s = Some (setProgressionOrder p s)"
| "apply_op eng (SetBlockDimensions d) s = Some (setBlockDimensions d s)"
| "apply_op eng (SetHTEnabled h) s = Some (setHTEnabled h s)"
| "apply_op eng (Encode mem) s = encode eng mem s"

fun run :: "engine \<Rightarrow> op list \<Rightarrow> HTJ2KEncoder \<Rightarrow> HTJ2KEncoder option" where
  "run eng [] s = Some s"
| "run eng (x # xs) s =
     (case apply_op eng x s of None \<Rightarrow> None | Some s' \<Rightarrow> run eng xs s')"

subsection \<open>Reading a trace\<close>

text \<open>The parameter assignments of a trace: the arguments of its \<open>parse_string\<close> calls.\<close>

fun parsed :: "engine_call \<Rightarrow> string list" where
  "parsed (Parse_string p) = [p]"
| "parsed _ = []"

definition parse_strings :: "engine_call list \<Rightarrow> string list" where
  "parse_strings cs = concat (map parsed cs)"

text \<open>The stripes of a trace: source pointer and heights of each \<open>push_stripe\<close> call.\<close>

fun pushed :: "engine_call \<Rightarrow> (pointer \<times> int list) list" where
  "pushed (Push_stripe p hs) = [(p, hs)]"
| "pushed _ = []"

definition push_stripes :: "engine_call list \<Rightarrow> (pointer \<times> int list) list" where
  "push_stripes cs = concat (map pushed cs)"

text \<open>
  The engine takes one stripe height per image component from the array it is handed:
  \<open>stripe_heights[c]\<close> for component \<open>c\<close>. An index beyond the array's end reads outside
  the array (\<open>None\<close>).
\<close>

definition component_stripe_height :: "int list \<Rightarrow> nat \<Rightarrow> int option" where
  "component_stripe_height hs c = (if c < length hs then Some (hs ! c) else None)"

text \<open>The calls that concern the thread context, and the start of compression.\<close>

fun is_thread_call :: "engine_call \<Rightarrow> bool" where
  "is_thread_call Env_create = True"
| "is_thread_call Env_add_thread = True"
| "is_thread_call Compressor_start = True"
| "is_thread_call _ = False"

definition is_corder :: "string \<Rightarrow> bool" where
  "is_corder p = (take 7 p = ''Corder='')"

definition is_creversible :: "string \<Rightarrow> bool" where
  "is_creversible p = (take 12 p = ''Creversible='')"

definition is_qfactor :: "string \<Rightarrow> bool" where
  "is_qfactor p = (take 8 p = ''Qfactor='')"

text \<open>The bytes a sequence of well-formed \<open>write\<close> calls hands over, in call order.\<close>

definition written :: "(byte list \<times> int) list \<Rightarrow> byte list" where
  "written ws = concat (map (\<lambda>(buf, num_bytes). take (nat num_bytes) buf) ws)"

fun well_formed_write :: "byte list \<times> int \<Rightarrow> bool" where
  "well_formed_write (buf, num_bytes) = (0 \<le> num_bytes \<and> num_bytes \<le> int (length buf))"

definition qfactor_in_range :: "HTJ2KEncoder \<Rightarrow> bool" where
  "qfactor_in_range s = (0 \<le> sint (qfactor s) \<and> sint (qfactor s) \<le> 100)"

text \<open>The operations other than \<open>encode()\<close>.\<close>

fun is_setter :: "op \<Rightarrow> bool" where
  "is_setter (Encode mem) = False"
| "is_setter _ = True"

fun points_into_decoded :: "pointer \<Rightarrow> bool" where
  "points_into_decoded (Decoded_data off) = True"
| "points_into_decoded _ = False"

text \<open>
  \<open>encode()\<close> returns nothing, so the header itself has no notion of success. The spec
  (sections 3 and 7) calls an encode successful when the pipeline does not abort and a
  codestream has arrived in the output: here, the engine completes, and the \<open>write\<close>
  calls it has made on the sink are well formed and carry at least one byte.
\<close>

definition successful :: "engine \<Rightarrow> memory \<Rightarrow> HTJ2KEncoder \<Rightarrow> bool" where
  "successful eng mem s =
     (case eng (engine_calls s) (source_view mem s) of
        None \<Rightarrow> False
      | Some ws \<Rightarrow> list_all well_formed_write ws \<and> written ws \<noteq> [])"

subsection \<open>Concrete inputs\<close>

text \<open>The 16 by 16 test image of three 8-bit components, and one of four components.\<close>

definition example_frame :: FrameInfo where
  "example_frame =
     \<lparr>width = 16, height = 16, bitsPerSample = 8, componentCount = 3, isSigned = False\<rparr>"

definition four_component_frame :: FrameInfo where
  "four_component_frame =
     \<lparr>width = 16, height = 16, bitsPerSample = 8, componentCount = 4, isSigned = False\<rparr>"

text \<open>An engine that writes a start-of-codestream and an end-of-codestream marker.\<close>

definition marker_engine :: engine where
  "marker_engine calls mem = Some [([0xFF, 0x4F], 2), ([0xFF, 0xD9], 2)]"

definition zero_memory :: memory where
  "zero_memory a = 0"

text \<open>
  An engine whose output depends on the samples, as a codec's does: it fails when no
  sample is readable and writes the first sample otherwise.
\<close>

definition first_byte_engine :: engine where
  "first_byte_engine calls src = (case src 0 of None \<Rightarrow> None | Some b \<Rightarrow> Some [([b], 1)])"

text \<open>
  A caller that registers the encoder's own vector as the source:
  \<open>setSourceImage(getDecodedBytes(frameInfo).data(), 1)\<close>; and one that registers a
  byte of its own memory.
\<close>

definition aliased_encoder :: HTJ2KEncoder where
  "aliased_encoder =
     setSourceImage (Decoded_data 0) 1
       (fst (getDecodedBytes example_frame (HTJ2KEncoder_new example_frame)))"

definition separate_encoder :: HTJ2KEncoder where
  "separate_encoder =
     setSourceImage (Ptr 100) 1
       (fst (getDecodedBytes example_frame (HTJ2KEncoder_new example_frame)))"

section \<open>Properties\<close>

subsection \<open>\<open>encode()\<close> without the reservation\<close>

lemma encode_unfold:
  "encode eng mem s =
     (case eng (engine_calls s) (source_view mem s) of
        None \<Rightarrow> None
      | Some ws \<Rightarrow>
          (case target_write_all ws (kdu_buffer_target_new (m_encoded s)) of
             None \<Rightarrow> None
           | Some (rs, encoded) \<Rightarrow> Some (s\<lparr>m_encoded := target_close encoded\<rparr>)))"
  by (simp add: encode_def Let_def reserve_def)

subsection \<open>What a trace holds\<close>

lemma parse_strings_engine_calls: "parse_strings (engine_calls s) = coding_params s"
proof -
  have "concat (map parsed (map Parse_string ps)) = ps" for ps
    by (induction ps) simp_all
  then show ?thesis
    by (simp add: parse_strings_def engine_calls_def siz_calls_def)
qed

lemma push_stripes_engine_calls:
  "push_stripes (engine_calls s) = [(m_buf s, stripe_heights (m_frameInfo s))]"
proof -
  have "concat (map pushed (map Parse_string ps)) = []" for ps
    by (induction ps) simp_all
  then show ?thesis
    by (simp add: push_stripes_def engine_calls_def siz_calls_def)
qed

lemma thread_calls_engine_calls:
  "filter is_thread_call (engine_calls s) =
     [Env_create, Env_add_thread, Env_add_thread, Compressor_start]"
proof -
  have "filter is_thread_call (map Parse_string ps) = []" for ps
    by (induction ps) simp_all
  then show ?thesis
    by (simp add: engine_calls_def siz_calls_def)
qed

text \<open>No member but those read by \<open>encode()\<close> reaches the engine.\<close>

lemma engine_calls_encoded: "engine_calls (s\<lparr>m_encoded := e\<rparr>) = engine_calls s"
  by (simp add: engine_calls_def coding_params_def)

lemma engine_calls_decoded: "engine_calls (s\<lparr>m_decoded := d\<rparr>) = engine_calls s"
  by (simp add: engine_calls_def coding_params_def)

lemma engine_calls_quantizationStep:
  "engine_calls (s\<lparr>m_quantizationStep := q\<rparr>) = engine_calls s"
  by (simp add: engine_calls_def coding_params_def)

text \<open>What the engine can read does not depend on the members below.\<close>

lemma source_view_encoded: "source_view mem (s\<lparr>m_encoded := e\<rparr>) = source_view mem s"
  by (simp add: source_view_def)

lemma source_view_quantizationStep:
  "source_view mem (s\<lparr>m_quantizationStep := q\<rparr>) = source_view mem s"
  by (simp add: source_view_def)

lemma source_view_decoded:
  "\<not> points_into_decoded (m_buf s) \<Longrightarrow>
   source_view mem (s\<lparr>m_decoded := d\<rparr>) = source_view mem s"
  by (cases "m_buf s") (simp_all add: source_view_def fun_eq_iff)

subsection \<open>The stripe\<close>

text \<open>Each \<open>encode()\<close> pushes one stripe; with up to three components each gets the full height.\<close>

lemma stripe_heights_three:
  "c < componentCount fi \<Longrightarrow> componentCount fi \<le> 3 \<Longrightarrow>
   component_stripe_height (stripe_heights fi) c = Some (int (height fi))"
  by (auto simp: component_stripe_height_def stripe_heights_def nth_Cons')

text \<open>
  C1. The claim asks for a full-height stripe for every one of the frame's components.
  The array \<open>stripe_heights\<close> has three entries whatever the component count: for the
  16 by 16 frame of four components the engine is told of four components, the one
  stripe pushed gives the height 16 to the components 0, 1 and 2, and the array has no
  entry for component 3.
\<close>

theorem fourth_component_stripe_height:
  "take 1 (engine_calls
      (fst (getDecodedBytes four_component_frame (HTJ2KEncoder_new example_frame)))) =
     [Siz_set Scomponents 0 0 (Int_value 4)] \<and>
   push_stripes (engine_calls
      (fst (getDecodedBytes four_component_frame (HTJ2KEncoder_new example_frame)))) =
     [(nullptr, [16, 16, 16])] \<and>
   map (component_stripe_height [16, 16, 16]) [0..<componentCount four_component_frame] =
     [Some 16, Some 16, Some 16, None]"
  by (simp add: push_stripes_engine_calls getDecodedBytes_def HTJ2KEncoder_new_def
      four_component_frame_def stripe_heights_def component_stripe_height_def upt_rec)
     (simp add: engine_calls_def siz_calls_def)

subsection \<open>The encoded buffer\<close>

lemma kdu_buffer_target_new_empty: "kdu_buffer_target_new e = []"
  by (simp add: kdu_buffer_target_new_def)

lemma target_write_ok:
  "0 \<le> n \<Longrightarrow> n \<le> int (length buf) \<Longrightarrow>
   target_write buf n e = Some (True, e @ take (nat n) buf)"
  by (simp add: target_write_def)

lemma target_write_all_ok:
  "list_all well_formed_write ws \<Longrightarrow>
   target_write_all ws e = Some (replicate (length ws) True, e @ written ws)"
proof (induction ws arbitrary: e)
  case Nil
  then show ?case by (simp add: written_def)
next
  case (Cons w ws)
  obtain buf n where w: "w = (buf, n)" by (cases w)
  with Cons.prems have ok: "0 \<le> n" "n \<le> int (length buf)"
    and rest: "list_all well_formed_write ws"
    by simp_all
  from rest have "target_write_all ws (e @ take (nat n) buf)
      = Some (replicate (length ws) True, (e @ take (nat n) buf) @ written ws)"
    by (rule Cons.IH)
  with ok w show ?case by (simp add: target_write_ok written_def)
qed

lemma target_write_all_Some:
  "target_write_all ws e = Some (rs, e') \<Longrightarrow> e' = e @ written ws"
proof (induction ws arbitrary: e rs)
  case Nil
  then show ?case by (simp add: written_def)
next
  case (Cons w ws)
  obtain buf n where w: "w = (buf, n)" by (cases w)
  with Cons.prems obtain rs' where
    "target_write_all ws (e @ take (nat n) buf) = Some (rs', e')"
    by (auto simp: target_write_def split: if_splits option.splits)
  then have "e' = (e @ take (nat n) buf) @ written ws" by (rule Cons.IH)
  with w show ?case by (simp add: written_def)
qed

lemma encode_Some:
  assumes "encode eng mem s = Some s'"
  shows "\<exists>ws. eng (engine_calls s) (source_view mem s) = Some ws \<and>
    s' = s\<lparr>m_encoded := written ws\<rparr>"
proof -
  from assms obtain ws rs e
    where ws: "eng (engine_calls s) (source_view mem s) = Some ws"
    and w: "target_write_all ws (kdu_buffer_target_new (m_encoded s)) = Some (rs, e)"
    and s': "s' = s\<lparr>m_encoded := target_close e\<rparr>"
    by (auto simp: encode_unfold split: option.splits)
  from w have "e = written ws"
    using target_write_all_Some [of ws "[]" rs e] by (simp add: kdu_buffer_target_new_empty)
  with ws s' show ?thesis by (simp add: target_close_def)
qed

lemma encode_forgets_encoded:
  "map_option m_encoded (encode eng mem (s\<lparr>m_encoded := e\<rparr>)) =
     map_option m_encoded (encode eng mem s)"
  by (simp add: encode_unfold engine_calls_encoded source_view_encoded
      kdu_buffer_target_new_empty split: option.splits)

text \<open>A successful encode returns, with the bytes the engine wrote in the buffer.\<close>

lemma successful_encode:
  assumes "successful eng mem s"
  shows "\<exists>s'. encode eng mem s = Some s' \<and> m_encoded s' \<noteq> []"
proof -
  from assms obtain ws where ws: "eng (engine_calls s) (source_view mem s) = Some ws"
    and wf: "list_all well_formed_write ws" and ne: "written ws \<noteq> []"
    by (auto simp: successful_def split: option.splits)
  from wf have "target_write_all ws [] = Some (replicate (length ws) True, [] @ written ws)"
    by (rule target_write_all_ok)
  with ws have "encode eng mem s = Some (s\<lparr>m_encoded := written ws\<rparr>)"
    by (simp add: encode_unfold kdu_buffer_target_new_empty target_close_def)
  with ne show ?thesis by simp
qed

text \<open>Only \<open>encode()\<close> touches the encoded buffer.\<close>

lemma apply_op_setter_encoded:
  "is_setter x \<Longrightarrow> apply_op eng x s = Some s' \<Longrightarrow> m_encoded s' = m_encoded s"
  by (cases x)
     (auto simp: getDecodedBytes_def setSourceImage_def setDecompositions_def
        setQuality_def setQfactor_def setProgressionOrder_def setBlockDimensions_def
        setHTEnabled_def Let_def)

lemma run_setters_encoded:
  "list_all is_setter ops \<Longrightarrow> run eng ops s = Some s' \<Longrightarrow> m_encoded s' = m_encoded s"
proof (induction ops arbitrary: s)
  case Nil
  then show ?case by simp
next
  case (Cons x xs)
  from Cons.prems obtain t where t: "apply_op eng x s = Some t" and r: "run eng xs t = Some s'"
    by (auto split: option.splits)
  from Cons.prems have x: "is_setter x" and xs: "list_all is_setter xs" by simp_all
  from xs r have "m_encoded s' = m_encoded t" by (rule Cons.IH)
  with apply_op_setter_encoded [OF x t] show ?case by simp
qed

text \<open>
  C2, as amended. The encoded buffer is empty until the first \<open>encode()\<close> is invoked,
  and \<open>encode()\<close> itself empties it when it constructs the target, before the engine
  writes: what the buffer held when \<open>encode()\<close> was invoked (before a second \<open>encode()\<close>,
  the previous output) has no influence on the result. After an \<open>encode()\<close> that returns
  the buffer holds exactly the bytes the engine wrote during that encode, in order; and
  immediately after a successful \<open>encode()\<close> returns, from whatever state, it is
  non-empty.
\<close>

theorem encode_replaces_encoded:
  "(list_all is_setter ops \<and> run eng ops (HTJ2KEncoder_new fi) = Some s0 \<longrightarrow>
      m_encoded s0 = []) \<and>
   kdu_buffer_target_new e = [] \<and>
   map_option m_encoded (encode eng mem (s\<lparr>m_encoded := e\<rparr>)) =
     map_option m_encoded (encode eng mem s) \<and>
   (encode eng mem s = Some s' \<longrightarrow>
      (\<exists>ws. eng (engine_calls s) (source_view mem s) = Some ws \<and>
         m_encoded s' = written ws)) \<and>
   (successful eng mem s \<longrightarrow>
      (\<exists>s'. encode eng mem s = Some s' \<and> m_encoded s' \<noteq> []))"
proof -
  have first: "m_encoded s0 = []"
    if "list_all is_setter ops" "run eng ops (HTJ2KEncoder_new fi) = Some s0"
    using run_setters_encoded [OF that] by (simp add: HTJ2KEncoder_new_def)
  have after: "\<exists>ws. eng (engine_calls s) (source_view mem s) = Some ws \<and>
      m_encoded s' = written ws"
    if "encode eng mem s = Some s'"
    using encode_Some [OF that] by auto
  from first after successful_encode [of eng mem s] show ?thesis
    by (simp add: kdu_buffer_target_new_empty encode_forgets_encoded)
qed

theorem encode_replaces_encoded_witness:
  "list_all is_setter [SetQfactor 50, SetHTEnabled False] \<and>
   run marker_engine [SetQfactor 50, SetHTEnabled False] (HTJ2KEncoder_new example_frame) =
     Some (setHTEnabled False (setQfactor 50 (HTJ2KEncoder_new example_frame))) \<and>
   m_encoded (setHTEnabled False (setQfactor 50 (HTJ2KEncoder_new example_frame))) = [] \<and>
   successful marker_engine zero_memory
     ((HTJ2KEncoder_new example_frame)\<lparr>m_encoded := [1, 2, 3]\<rparr>) \<and>
   encode marker_engine zero_memory
     ((HTJ2KEncoder_new example_frame)\<lparr>m_encoded := [1, 2, 3]\<rparr>) =
     Some ((HTJ2KEncoder_new example_frame)\<lparr>m_encoded := [0xFF, 0x4F, 0xFF, 0xD9]\<rparr>) \<and>
   marker_engine
     (engine_calls ((HTJ2KEncoder_new example_frame)\<lparr>m_encoded := [1, 2, 3]\<rparr>))
     (source_view zero_memory ((HTJ2KEncoder_new example_frame)\<lparr>m_encoded := [1, 2, 3]\<rparr>)) =
     Some [([0xFF, 0x4F], 2), ([0xFF, 0xD9], 2)] \<and>
   written [([0xFF, 0x4F], 2), ([0xFF, 0xD9], 2)] = [0xFF, 0x4F, 0xFF, 0xD9]"
  using encode_replaces_encoded [where ops = "[SetQfactor 50, SetHTEnabled False]"
      and eng = marker_engine and fi = example_frame
      and ?s0.0 = "setHTEnabled False (setQfactor 50 (HTJ2KEncoder_new example_frame))"
      and e = "[]" and mem = zero_memory
      and s = "(HTJ2KEncoder_new example_frame)\<lparr>m_encoded := [1, 2, 3]\<rparr>"
      and s' = "(HTJ2KEncoder_new example_frame)\<lparr>m_encoded := [0xFF, 0x4F, 0xFF, 0xD9]\<rparr>"]
  by (simp add: successful_def encode_unfold marker_engine_def target_write_def
      kdu_buffer_target_new_def target_close_def written_def HTJ2KEncoder_new_def
      setQfactor_def setHTEnabled_def word_sless_alt)

text \<open>
  C2, as stated, fails: nothing empties the buffer between two calls. After one
  \<open>encode()\<close> on a fresh encoder, that is in the state in which a second \<open>encode()\<close> is
  invoked, the buffer holds the four bytes the engine wrote.
\<close>

theorem encoded_not_empty_before_second_encode:
  "map_option m_encoded
     (run marker_engine [Encode zero_memory] (HTJ2KEncoder_new example_frame)) =
     Some [0xFF, 0x4F, 0xFF, 0xD9] \<and>
   map_option m_encoded
     (run marker_engine [Encode zero_memory] (HTJ2KEncoder_new example_frame)) \<noteq> Some []"
  by (simp add: encode_unfold marker_engine_def target_write_def kdu_buffer_target_new_def
      target_close_def HTJ2KEncoder_new_def)

subsection \<open>The quality factor\<close>

lemma setQfactor_sint: "sint (qfactor (setQfactor q s)) = max 0 (min 100 (sint q))"
  by (simp add: setQfactor_def Let_def word_sless_alt max_def min_def)

lemma encode_qfactor: "encode eng mem s = Some s' \<Longrightarrow> qfactor s' = qfactor s"
  by (auto simp: encode_unfold split: option.splits)

lemma apply_op_qfactor_in_range:
  "apply_op eng x s = Some s' \<Longrightarrow> qfactor_in_range s \<Longrightarrow> qfactor_in_range s'"
proof (cases x)
  case (SetQfactor q)
  assume "apply_op eng x s = Some s'"
  with SetQfactor have "s' = setQfactor q s" by simp
  then show "qfactor_in_range s'"
    using setQfactor_sint [of q s] by (simp add: qfactor_in_range_def)
next
  case (Encode mem)
  assume "apply_op eng x s = Some s'" and "qfactor_in_range s"
  with Encode show "qfactor_in_range s'"
    by (simp add: qfactor_in_range_def encode_qfactor)
qed (auto simp: qfactor_in_range_def getDecodedBytes_def setSourceImage_def
      setDecompositions_def setQuality_def setProgressionOrder_def setBlockDimensions_def
      setHTEnabled_def Let_def)

lemma run_qfactor_in_range:
  "run eng ops s = Some s' \<Longrightarrow> qfactor_in_range s \<Longrightarrow> qfactor_in_range s'"
proof (induction ops arbitrary: s)
  case Nil
  then show ?case by simp
next
  case (Cons x xs)
  then obtain t where t: "apply_op eng x s = Some t" and r: "run eng xs t = Some s'"
    by (auto split: option.splits)
  from t Cons.prems(2) have "qfactor_in_range t" by (rule apply_op_qfactor_in_range)
  with r show ?case by (rule Cons.IH)
qed

lemma new_qfactor_in_range: "qfactor_in_range (HTJ2KEncoder_new fi)"
  by (simp add: qfactor_in_range_def HTJ2KEncoder_new_def)

text \<open>
  C3. \<open>setQfactor(q)\<close> stores \<open>max(0, min(100, q))\<close>, for every \<open>int\<close> \<open>q\<close>; and in
  every state reached from a fresh encoder by any sequence of public calls, with any
  engine, the stored quality factor lies between 0 and 100.
\<close>

theorem setQfactor_clamps:
  "sint (qfactor (setQfactor q s)) = max 0 (min 100 (sint q)) \<and>
   (\<forall>eng ops fi s'. run eng ops (HTJ2KEncoder_new fi) = Some s' \<longrightarrow>
      0 \<le> sint (qfactor s') \<and> sint (qfactor s') \<le> 100)"
  using setQfactor_sint run_qfactor_in_range new_qfactor_in_range
  unfolding qfactor_in_range_def by blast

theorem setQfactor_clamps_witness:
  "sint (qfactor (setQfactor 250 (HTJ2KEncoder_new example_frame))) = 100 \<and>
   map_option qfactor
     (run marker_engine [SetQfactor (- 7), Encode zero_memory]
        (HTJ2KEncoder_new example_frame)) = Some 0"
  using setQfactor_clamps [of 250 "HTJ2KEncoder_new example_frame"]
  by (simp add: setQfactor_def HTJ2KEncoder_new_def encode_unfold marker_engine_def
      target_write_def kdu_buffer_target_new_def target_close_def word_sless_alt)

subsection \<open>The parameter translation\<close>

lemma corder_param_table:
  "corder_param p =
     (if p \<le> 4 then [''Corder='' @ [''LRCP'', ''RLCP'', ''RPCL'', ''PCRL'', ''CPRL''] ! p]
      else [])"
proof -
  consider "p = 0" | "p = 1" | "p = 2" | "p = 3" | "p = 4" | "4 < p" by linarith
  then show ?thesis by cases (simp_all add: corder_param_def)
qed

lemma filter_corder_corder_param: "filter is_corder (corder_param p) = corder_param p"
  by (simp add: corder_param_def is_corder_def)

lemma filter_corder_coding_params:
  "filter is_corder (coding_params s) = corder_param (m_progressionOrder s)"
  by (simp add: coding_params_def filter_corder_corder_param)
     (simp add: is_corder_def snprintf_def)

text \<open>
  C4. Among the parameter assignments of an \<open>encode()\<close>, those for \<open>Corder\<close> are: exactly
  one when the stored progression order is 0, 1, 2, 3 or 4, naming LRCP, RLCP, RPCL,
  PCRL, CPRL in this order; none for any other stored value. The translation has no
  failing branch.
\<close>

theorem corder_assignment:
  "filter is_corder (parse_strings (engine_calls s)) =
     (if m_progressionOrder s \<le> 4
      then [''Corder='' @
              [''LRCP'', ''RLCP'', ''RPCL'', ''PCRL'', ''CPRL''] ! m_progressionOrder s]
      else [])"
  by (simp only: parse_strings_engine_calls filter_corder_coding_params corder_param_table)

text \<open>The decimal text of a 32-bit \<open>int\<close> has at most eleven characters, so
  \<open>Qfactor=%d\<close> always fits the 32-byte array.\<close>

lemma length_decimal: "0 < k \<Longrightarrow> n < 10 ^ k \<Longrightarrow> length (decimal n) \<le> k"
proof (induction k arbitrary: n)
  case 0
  then show ?case by simp
next
  case (Suc k)
  show ?case
  proof (cases "n < 10")
    case True
    then show ?thesis by (simp add: decimal.simps)
  next
    case False
    with Suc.prems have k: "0 < k" by (cases k) auto
    from Suc.prems have "n div 10 < 10 ^ k" by (simp add: less_mult_imp_div_less mult.commute)
    with k have "length (decimal (n div 10)) \<le> k" by (rule Suc.IH)
    with False show ?thesis by (subst decimal.simps) simp
  qed
qed

lemma length_fmt_d_int: "length (fmt_d (sint (q :: c_int))) \<le> 11"
proof -
  have b: "- (2 ^ 31) \<le> sint q" "sint q < 2 ^ 31"
    using sint_ge [of q] sint_lt [of q] by simp_all
  show ?thesis
  proof (cases "sint q < 0")
    case True
    with b have "nat (- sint q) < 10 ^ 10" by simp
    then have "length (decimal (nat (- sint q))) \<le> 10"
      by (rule length_decimal [rotated]) simp
    with True show ?thesis by (simp add: fmt_d_def)
  next
    case False
    with b have "nat (sint q) < 10 ^ 10" by simp
    then have "length (decimal (nat (sint q))) \<le> 10"
      by (rule length_decimal [rotated]) simp
    with False show ?thesis by (simp add: fmt_d_def)
  qed
qed

lemma quality_params:
  "filter (\<lambda>p. is_creversible p \<or> is_qfactor p) (coding_params s) =
     (if m_lossless s then [''Creversible=yes'']
      else [''Creversible=no'', ''Qfactor='' @ fmt_d (sint (qfactor s))])"
proof -
  have c: "filter (\<lambda>p. is_creversible p \<or> is_qfactor p) (corder_param p) = []" for p
    by (simp add: corder_param_def is_creversible_def is_qfactor_def)
  have l: "length (fmt_d (sint (qfactor s))) \<le> 23"
    using length_fmt_d_int [of "qfactor s"] by simp
  show ?thesis
    by (simp add: coding_params_def c)
       (simp add: is_creversible_def is_qfactor_def snprintf_def l)
qed

text \<open>
  C5. Among the parameter assignments of an \<open>encode()\<close>, those for \<open>Creversible\<close> and
  \<open>Qfactor\<close> are: \<open>Creversible=yes\<close> alone when the lossless flag is set; otherwise
  \<open>Creversible=no\<close> and then \<open>Qfactor=\<close> with the stored quality factor in decimal.
\<close>

theorem quality_assignments:
  "filter (\<lambda>p. is_creversible p \<or> is_qfactor p) (parse_strings (engine_calls s)) =
     (if m_lossless s then [''Creversible=yes'']
      else [''Creversible=no'', ''Qfactor='' @ fmt_d (sint (qfactor s))])"
  by (simp only: parse_strings_engine_calls quality_params)

text \<open>
  C6. The quantization step does not reach the engine. Two calls of \<open>setQuality\<close> with
  the same lossless flag and different steps, on the same state, lead to the same calls
  on the engine (so to the same parameter assignments) and, for the same engine and
  memory, to the same encoded buffer or the same failure; the same holds for any two
  states that differ in the stored step only.
\<close>

theorem quantizationStep_unobservable:
  "engine_calls (setQuality l q1 s) = engine_calls (setQuality l q2 s) \<and>
   parse_strings (engine_calls (setQuality l q1 s)) =
     parse_strings (engine_calls (setQuality l q2 s)) \<and>
   map_option m_encoded (encode eng mem (setQuality l q1 s)) =
     map_option m_encoded (encode eng mem (setQuality l q2 s)) \<and>
   engine_calls (s\<lparr>m_quantizationStep := q\<rparr>) = engine_calls s \<and>
   map_option m_encoded (encode eng mem (s\<lparr>m_quantizationStep := q\<rparr>)) =
     map_option m_encoded (encode eng mem s)"
proof -
  have a: "engine_calls (setQuality l q1 s) = engine_calls (setQuality l q2 s)"
    by (simp add: setQuality_def engine_calls_def coding_params_def)
  have b: "map_option m_encoded (encode eng mem (setQuality l q1 s)) =
     map_option m_encoded (encode eng mem (setQuality l q2 s))"
    unfolding encode_unfold a by (simp add: setQuality_def source_view_def split: option.splits)
  have c: "map_option m_encoded (encode eng mem (s\<lparr>m_quantizationStep := q\<rparr>)) =
     map_option m_encoded (encode eng mem s)"
    by (simp add: encode_unfold engine_calls_quantizationStep source_view_quantizationStep
        split: option.splits)
  from a b c engine_calls_quantizationStep show ?thesis by simp
qed

subsection \<open>The sink\<close>

text \<open>
  C7. A \<open>write\<close> of \<open>n \<ge> 0\<close> bytes (with \<open>n\<close> bytes readable at the pointer) appends
  exactly these \<open>n\<close> bytes to the end of the buffer and returns \<open>true\<close>; a write of zero
  bytes leaves the buffer as it is; and after any sequence of such writes every call has
  returned \<open>true\<close> and the buffer is the old buffer followed by the written runs in call
  order.
\<close>

theorem write_appends:
  "(0 \<le> n \<and> n \<le> int (length buf) \<longrightarrow>
      target_write buf n e = Some (True, e @ take (nat n) buf) \<and>
      length (take (nat n) buf) = nat n) \<and>
   target_write buf 0 e = Some (True, e) \<and>
   (list_all well_formed_write ws \<longrightarrow>
      target_write_all ws e = Some (replicate (length ws) True, e @ written ws))"
proof -
  have "length (take (nat n) buf) = nat n" if "0 \<le> n" "n \<le> int (length buf)"
    using that by simp
  moreover have "target_write buf 0 e = Some (True, e)"
    by (simp add: target_write_def)
  ultimately show ?thesis
    using target_write_ok [of n buf e] target_write_all_ok [of ws e] by blast
qed

theorem write_appends_witness:
  "target_write [1, 2, 3] 2 [7] = Some (True, [7, 1, 2]) \<and>
   target_write [1, 2, 3] 0 [7] = Some (True, [7]) \<and>
   list_all well_formed_write [([1, 2, 3], 2), ([], 0), ([9], 1)] \<and>
   target_write_all [([1, 2, 3], 2), ([], 0), ([9], 1)] [7] =
     Some ([True, True, True], [7, 1, 2, 9])"
  using write_appends [of 2 "[1, 2, 3]" "[7]" "[([1, 2, 3], 2), ([], 0), ([9], 1)]"]
  by (simp add: written_def target_write_def)

subsection \<open>The thread context\<close>

text \<open>
  C8. Whatever the state of the encoder, the calls of an \<open>encode()\<close> that concern the
  thread context are one \<open>create\<close> and then two \<open>add_thread\<close>, all before the one start
  of compression.
\<close>

theorem thread_context:
  "filter is_thread_call (engine_calls s) =
     [Env_create, Env_add_thread, Env_add_thread, Compressor_start]"
  by (rule thread_calls_engine_calls)

subsection \<open>Defaults\<close>

text \<open>
  C9. A freshly constructed encoder holds 5 decompositions, lossless, quantization step
  -1, progression order 2, 64 by 64 blocks, HT enabled, quality factor 85, a null source
  pointer and length 0; and an \<open>encode()\<close> of it hands the engine the assignments for
  HT, reversible, RPCL, 5 levels and 64 by 64 blocks.
\<close>

theorem fresh_encoder_defaults:
  "m_decompositions (HTJ2KEncoder_new fi) = 5 \<and>
   m_lossless (HTJ2KEncoder_new fi) = True \<and>
   m_quantizationStep (HTJ2KEncoder_new fi) = Finite (- 1) \<and>
   m_progressionOrder (HTJ2KEncoder_new fi) = 2 \<and>
   m_blockDimensions (HTJ2KEncoder_new fi) = \<lparr>size_width = 64, size_height = 64\<rparr> \<and>
   m_htEnabled (HTJ2KEncoder_new fi) = True \<and>
   sint (qfactor (HTJ2KEncoder_new fi)) = 85 \<and>
   m_buf (HTJ2KEncoder_new fi) = nullptr \<and>
   m_size (HTJ2KEncoder_new fi) = 0 \<and>
   parse_strings (engine_calls (HTJ2KEncoder_new fi)) =
     [''Cmodes=HT'', ''Creversible=yes'', ''Corder=RPCL'', ''Clevels=5'', ''Cblk={64,64}'']"
  by (simp add: parse_strings_engine_calls coding_params_def HTJ2KEncoder_new_def Size_new_def
      corder_param_def snprintf_def fmt_zu_def fmt_d_def decimal.simps digit_char_def)

subsection \<open>The source of the samples\<close>

text \<open>
  C10, as amended. The one stripe pushed carries the pointer registered with
  \<open>setSourceImage\<close>, and the vector \<open>decoded_\<close> occurs in no call on the engine.
  Provided the registered pointer does not point into the storage of \<open>decoded_\<close>, two
  states that differ in the contents of \<open>decoded_\<close> only lead, for the same engine and
  the same caller memory, to the same encoded buffer. \<open>getDecodedBytes\<close> returns that
  vector as it is, without resizing it, and stores the frame description that the next
  \<open>encode()\<close> hands to the engine.
\<close>

theorem decoded_buffer_unread:
  "push_stripes (engine_calls (setSourceImage p n s)) = [(p, stripe_heights (m_frameInfo s))] \<and>
   engine_calls (s\<lparr>m_decoded := d\<rparr>) = engine_calls s \<and>
   (\<not> points_into_decoded (m_buf s) \<longrightarrow>
      map_option m_encoded (encode eng mem (s\<lparr>m_decoded := d\<rparr>)) =
        map_option m_encoded (encode eng mem s)) \<and>
   snd (getDecodedBytes fi s) = m_decoded s \<and>
   m_decoded (fst (getDecodedBytes fi s)) = m_decoded s \<and>
   m_frameInfo (fst (getDecodedBytes fi s)) = fi \<and>
   take 6 (engine_calls (fst (getDecodedBytes fi s))) = siz_calls fi \<and>
   push_stripes (engine_calls (fst (getDecodedBytes fi s))) = [(m_buf s, stripe_heights fi)]"
proof -
  have "map_option m_encoded (encode eng mem (s\<lparr>m_decoded := d\<rparr>)) =
      map_option m_encoded (encode eng mem s)"
    if "\<not> points_into_decoded (m_buf s)"
    using source_view_decoded [OF that, of mem d]
    by (simp add: encode_unfold engine_calls_decoded split: option.splits)
  moreover have "take 6 (engine_calls (fst (getDecodedBytes fi s))) = siz_calls fi"
    by (simp add: engine_calls_def siz_calls_def getDecodedBytes_def)
  ultimately show ?thesis
    by (simp add: push_stripes_engine_calls engine_calls_decoded)
       (simp add: getDecodedBytes_def setSourceImage_def)
qed

theorem decoded_buffer_unread_witness:
  "\<not> points_into_decoded (m_buf separate_encoder) \<and>
   map_option m_encoded
     (encode first_byte_engine zero_memory (separate_encoder\<lparr>m_decoded := [1]\<rparr>)) = Some [0] \<and>
   map_option m_encoded (encode first_byte_engine zero_memory separate_encoder) = Some [0]"
  using decoded_buffer_unread [where s = separate_encoder and d = "[1]"
      and eng = first_byte_engine and mem = zero_memory]
  by (simp add: separate_encoder_def setSourceImage_def getDecodedBytes_def
      HTJ2KEncoder_new_def encode_unfold source_view_def first_byte_engine_def zero_memory_def
      target_write_def kdu_buffer_target_new_def target_close_def)

text \<open>
  C10, as stated, fails when the caller registers the encoder's own vector as the source,
  \<open>setSourceImage(getDecodedBytes(frameInfo).data(), 1)\<close>: the two states below are
  reached by the public calls, differ in the contents of \<open>decoded_\<close> only, and give
  different encoded buffers.
\<close>

theorem decoded_contents_reach_output:
  "run first_byte_engine
     [GetDecodedBytes example_frame, StoreDecoded [1], SetSourceImage (Decoded_data 0) 1]
     (HTJ2KEncoder_new example_frame) = Some (aliased_encoder\<lparr>m_decoded := [1]\<rparr>) \<and>
   run first_byte_engine
     [GetDecodedBytes example_frame, StoreDecoded [2], SetSourceImage (Decoded_data 0) 1]
     (HTJ2KEncoder_new example_frame) = Some (aliased_encoder\<lparr>m_decoded := [2]\<rparr>) \<and>
   map_option m_encoded
     (encode first_byte_engine zero_memory (aliased_encoder\<lparr>m_decoded := [1]\<rparr>)) = Some [1] \<and>
   map_option m_encoded
     (encode first_byte_engine zero_memory (aliased_encoder\<lparr>m_decoded := [2]\<rparr>)) = Some [2]"
  by (simp add: aliased_encoder_def setSourceImage_def getDecodedBytes_def
      HTJ2KEncoder_new_def encode_unfold source_view_def first_byte_engine_def
      target_write_def kdu_buffer_target_new_def target_close_def)

end
